theory Spec2Isabelle
  imports Complex_Main "HOL-Library.FSet" "HOL-Library.Sublist"
begin

section \<open>JavaScript values used by the listing browser\<close>

text \<open>
  A JavaScript number is modelled as a rational when it is finite. The two infinities are
  kept because \<^verbatim>\<open>Math.min()\<close> of no arguments is \<^verbatim>\<open>Infinity\<close>, \<^verbatim>\<open>Math.max()\<close>
  of no arguments is \<^verbatim>\<open>-Infinity\<close>, and the comparison overlay uses
  \<^verbatim>\<open>Number.POSITIVE_INFINITY\<close>. Rounding of floating-point products and NaN are not
  modelled: every product the components compare is computed by the same expression on
  both sides of the comparison.
\<close>

datatype number = NegInfinity | Num rat | PosInfinity

instantiation number :: linorder
begin

fun less_eq_number :: "number \<Rightarrow> number \<Rightarrow> bool" where
  "less_eq_number NegInfinity y = True"
| "less_eq_number (Num a) NegInfinity = False"
| "less_eq_number (Num a) (Num b) = (a \<le> b)"
| "less_eq_number (Num a) PosInfinity = True"
| "less_eq_number PosInfinity PosInfinity = True"
| "less_eq_number PosInfinity y = False"

definition less_number :: "number \<Rightarrow> number \<Rightarrow> bool" where
  "less_number x y = (x \<le> y \<and> \<not> y \<le> x)"

instance
proof
  fix x y z :: number
  show "(x < y) = (x \<le> y \<and> \<not> y \<le> x)"
    by (simp add: less_number_def)
  show "x \<le> x"
    by (cases x) simp_all
  show "x \<le> y \<Longrightarrow> y \<le> z \<Longrightarrow> x \<le> z"
    by (cases x; cases y; cases z) simp_all
  show "x \<le> y \<Longrightarrow> y \<le> x \<Longrightarrow> x = y"
    by (cases x; cases y) simp_all
  show "x \<le> y \<or> y \<le> x"
    by (cases x; cases y) auto
qed

end

text \<open>\<^verbatim>\<open>Math.min(...xs)\<close> and \<^verbatim>\<open>Math.max(...xs)\<close> over a spread array.\<close>

definition Math_min :: "number list \<Rightarrow> number" where
  "Math_min xs = fold min xs PosInfinity"

definition Math_max :: "number list \<Rightarrow> number" where
  "Math_max xs = fold max xs NegInfinity"

text \<open>
  \<^verbatim>\<open>String.prototype.toLowerCase\<close>, on the ASCII letters (other characters are left as
  they are), and \<^verbatim>\<open>s.includes(t)\<close>: \<open>t\<close> occurs in \<open>s\<close> as a contiguous run.
\<close>

definition toLowerCase_char :: "char \<Rightarrow> char" where
  "toLowerCase_char c =
     (let n = (of_char c :: nat) in if 65 \<le> n \<and> n \<le> 90 then char_of (n + 32) else c)"

definition toLowerCase :: "string \<Rightarrow> string" where
  "toLowerCase s = map toLowerCase_char s"

fun includes_str :: "string \<Rightarrow> string \<Rightarrow> bool" where
  "includes_str [] t = (t = [])"
| "includes_str (c # s) t = (prefix t (c # s) \<or> includes_str s t)"

text \<open>
  \<^verbatim>\<open>Array.prototype.sort(cmp)\<close>. The language standard requires the sort to be stable
  and, for a consistent comparator, the result to be ordered by it; these two conditions
  determine the result, which is the one computed here by stable insertion: an element
  is placed before the first element it does not compare greater than, so it stays in
  front of the later elements it ties with.
\<close>

fun insort_cmp :: "('a \<Rightarrow> 'a \<Rightarrow> rat) \<Rightarrow> 'a \<Rightarrow> 'a list \<Rightarrow> 'a list" where
  "insort_cmp cmp x [] = [x]"
| "insort_cmp cmp x (y # ys) =
     (if cmp x y \<le> 0 then x # y # ys else y # insort_cmp cmp x ys)"

definition Array_sort :: "('a \<Rightarrow> 'a \<Rightarrow> rat) \<Rightarrow> 'a list \<Rightarrow> 'a list" where
  "Array_sort cmp xs = foldr (insort_cmp cmp) xs []"


section \<open>Data model\<close>

text \<open>
  The \<^verbatim>\<open>Property\<close> type of \<^verbatim>\<open>types/Property\<close>, with the fields the components read.
  \<^verbatim>\<open>year_built\<close> is optional. The fields \<^verbatim>\<open>id\<close> and \<^verbatim>\<open>zip\<close> carry a suffix.
\<close>

record Address =
  street :: string
  city :: string
  state :: string
  zip_code :: string

record Property =
  id_p :: string
  title :: string
  description :: string
  type :: string
  address :: Address
  price_per_sqft :: rat
  total_sqft :: rat
  year_built :: "rat option"
  date_listed :: string
  amenities :: "string list"
  images :: "string list"

text \<open>\<^verbatim>\<open>FilterState\<close> of \<^verbatim>\<open>SearchAndFilters.tsx\<close>; a range is a pair (lower, upper).\<close>

record FilterState =
  searchTerm :: string
  selectedTypes :: "string list"
  priceRange :: "number \<times> number"
  sizeRange :: "number \<times> number"
  selectedLocations :: "string list"
  selectedAmenities :: "string list"
  sortBy :: string

definition initialFilters :: FilterState where
  "initialFilters =
     \<lparr> searchTerm = [], selectedTypes = [], priceRange = (Num 0, Num 0),
       sizeRange = (Num 0, Num 0), selectedLocations = [], selectedAmenities = [],
       sortBy = ''date_listed'' \<rparr>"


section \<open>SearchAndFilters: range bounds\<close>

definition totalPrice :: "Property \<Rightarrow> rat" where
  "totalPrice p = price_per_sqft p * total_sqft p"

definition minPrice :: "Property list \<Rightarrow> number" where
  "minPrice properties = Math_min (map (\<lambda>p. Num (price_per_sqft p * total_sqft p)) properties)"

definition maxPrice :: "Property list \<Rightarrow> number" where
  "maxPrice properties = Math_max (map (\<lambda>p. Num (price_per_sqft p * total_sqft p)) properties)"

definition minSize :: number where
  "minSize = Num 600"

definition maxSize :: "Property list \<Rightarrow> number" where
  "maxSize properties = Math_max (map (\<lambda>p. Num (total_sqft p)) properties)"

text \<open>The effect "Initialize ranges when properties change".\<close>

definition initRanges :: "Property list \<Rightarrow> FilterState \<Rightarrow> FilterState" where
  "initRanges properties prev =
     (if length properties > 0
      then prev\<lparr> priceRange := (minPrice properties, maxPrice properties),
                 sizeRange := (minSize, maxSize properties) \<rparr>
      else prev)"


text \<open>\<^verbatim>\<open>clearFilters\<close>: the criteria are reset, the ranges to the bounds of the collection.\<close>

definition clearFilters :: "Property list \<Rightarrow> FilterState" where
  "clearFilters properties =
     \<lparr> searchTerm = [], selectedTypes = [],
       priceRange = (minPrice properties, maxPrice properties),
       sizeRange = (minSize, maxSize properties),
       selectedLocations = [], selectedAmenities = [], sortBy = ''date_listed'' \<rparr>"


section \<open>SearchAndFilters: the filter effect\<close>

definition matchesSearch :: "string \<Rightarrow> Property \<Rightarrow> bool" where
  "matchesSearch searchLower property =
     (includes_str (toLowerCase (title property)) searchLower \<or>
      includes_str (toLowerCase (description property)) searchLower \<or>
      includes_str (toLowerCase (city (address property))) searchLower \<or>
      includes_str (toLowerCase (state (address property))) searchLower \<or>
      list_ex (\<lambda>amenity. includes_str (toLowerCase amenity) searchLower) (amenities property))"

definition inPriceRange :: "FilterState \<Rightarrow> Property \<Rightarrow> bool" where
  "inPriceRange filters property =
     (let totalPrice = price_per_sqft property * total_sqft property
      in Num totalPrice \<ge> fst (priceRange filters) \<and> Num totalPrice \<le> snd (priceRange filters))"

definition inSizeRange :: "FilterState \<Rightarrow> Property \<Rightarrow> bool" where
  "inSizeRange filters property =
     (Num (total_sqft property) \<ge> fst (sizeRange filters) \<and>
      Num (total_sqft property) \<le> snd (sizeRange filters))"

definition location :: "Property \<Rightarrow> string" where
  "location property = city (address property) @ '', '' @ state (address property)"

definition hasAmenities :: "FilterState \<Rightarrow> Property \<Rightarrow> bool" where
  "hasAmenities filters property =
     list_all (\<lambda>amenity. amenity \<in> set (amenities property)) (selectedAmenities filters)"

text \<open>
  The comparator handed to \<^verbatim>\<open>filtered.sort\<close>. \<open>getTime d\<close> stands for
  \<^verbatim>\<open>new Date(d).getTime()\<close> and \<open>localeCompare\<close> for \<^verbatim>\<open>String.prototype.localeCompare\<close>;
  both belong to the runtime and are parameters.
\<close>

definition compareFn ::
  "(string \<Rightarrow> rat) \<Rightarrow> (string \<Rightarrow> string \<Rightarrow> rat) \<Rightarrow> string \<Rightarrow> Property \<Rightarrow> Property \<Rightarrow> rat" where
  "compareFn getTime localeCompare sortKey a b =
     (if sortKey = ''date_listed'' then getTime (date_listed b) - getTime (date_listed a)
      else if sortKey = ''date_listed_old'' then getTime (date_listed a) - getTime (date_listed b)
      else if sortKey = ''price_low''
        then (price_per_sqft a * total_sqft a) - (price_per_sqft b * total_sqft b)
      else if sortKey = ''price_high''
        then (price_per_sqft b * total_sqft b) - (price_per_sqft a * total_sqft a)
      else if sortKey = ''size_large'' then total_sqft b - total_sqft a
      else if sortKey = ''size_small'' then total_sqft a - total_sqft b
      else if sortKey = ''title'' then localeCompare (title a) (title b)
      else 0)"

text \<open>The narrowing stages of the effect, in the order of the source; \<^verbatim>\<open>xs.includes(x)\<close>
  on an array is membership.\<close>

definition narrow :: "Property list \<Rightarrow> string \<Rightarrow> FilterState \<Rightarrow> Property list" where
  "narrow properties debouncedSearchTerm filters =
     (let filtered = properties;
          filtered = (if debouncedSearchTerm \<noteq> []
                      then filter (matchesSearch (toLowerCase debouncedSearchTerm)) filtered
                      else filtered);
          filtered = (if length (selectedTypes filters) > 0
                      then filter (\<lambda>property. type property \<in> set (selectedTypes filters)) filtered
                      else filtered);
          filtered = filter (inPriceRange filters) filtered;
          filtered = filter (inSizeRange filters) filtered;
          filtered = (if length (selectedLocations filters) > 0
                      then filter (\<lambda>property. location property \<in> set (selectedLocations filters)) filtered
                      else filtered);
          filtered = (if length (selectedAmenities filters) > 0
                      then filter (hasAmenities filters) filtered
                      else filtered)
      in filtered)"

text \<open>The whole effect: narrow, then sort; the result is passed to \<^verbatim>\<open>onFilteredProperties\<close>.\<close>

definition filterEffect ::
  "(string \<Rightarrow> rat) \<Rightarrow> (string \<Rightarrow> string \<Rightarrow> rat) \<Rightarrow> Property list \<Rightarrow> string \<Rightarrow> FilterState
     \<Rightarrow> Property list" where
  "filterEffect getTime localeCompare properties debouncedSearchTerm filters =
     Array_sort (compareFn getTime localeCompare (sortBy filters))
       (narrow properties debouncedSearchTerm filters)"


section \<open>PropertyGrid: selection, reveal window, comparison input\<close>

text \<open>\<^verbatim>\<open>toggleSelect\<close>: the updater passed to \<^verbatim>\<open>setSelectedIds\<close>, on a finite set of ids.\<close>

definition toggleSelect :: "string \<Rightarrow> bool \<Rightarrow> string fset \<Rightarrow> string fset" where
  "toggleSelect ident checked prev =
     (let next = prev in
      if checked then (if fcard next \<ge> 4 then next else finsert ident next)
      else next |-| {|ident|})"

text \<open>The state of the grid that the selection, the reveal window and the comparison read.\<close>

record GridState =
  filteredProperties :: "Property list"
  selectedIds :: "string fset"
  isCompareOpen :: bool
  visibleCount :: nat
  isLoadingMore :: bool
  hasMore :: bool

definition initialGrid :: "Property list \<Rightarrow> GridState" where
  "initialGrid properties =
     \<lparr> filteredProperties = properties, selectedIds = {||}, isCompareOpen = False,
       visibleCount = 8, isLoadingMore = False, hasMore = True \<rparr>"

text \<open>The effect on \<^verbatim>\<open>[properties]\<close>: the root collection was replaced.\<close>

definition propertiesEffect :: "Property list \<Rightarrow> GridState \<Rightarrow> GridState" where
  "propertiesEffect properties st =
     st\<lparr> filteredProperties := properties, visibleCount := 8,
         hasMore := (length properties > 8) \<rparr>"

text \<open>
  \<^verbatim>\<open>setFilteredProperties\<close> called by the filter effect with a fresh array, followed by
  the effect on \<^verbatim>\<open>[filteredProperties]\<close> that the new array triggers.
\<close>

definition filteredEffect :: "GridState \<Rightarrow> GridState" where
  "filteredEffect st = st\<lparr> visibleCount := 8, hasMore := (length (filteredProperties st) > 8) \<rparr>"

definition setFilteredProperties :: "Property list \<Rightarrow> GridState \<Rightarrow> GridState" where
  "setFilteredProperties filtered st = filteredEffect (st\<lparr> filteredProperties := filtered \<rparr>)"

text \<open>
  \<^verbatim>\<open>loadMoreProperties\<close>: the guard, the flag, and the timer it schedules. The callback
  closes over \<^verbatim>\<open>filteredProperties.length\<close> of the render that created it, so a
  scheduled timer is the captured length.
\<close>

definition loadMoreProperties :: "GridState \<Rightarrow> GridState \<times> nat option" where
  "loadMoreProperties st =
     (if isLoadingMore st \<or> \<not> hasMore st then (st, None)
      else (st\<lparr> isLoadingMore := True \<rparr>, Some (length (filteredProperties st))))"

definition timeoutCallback :: "nat \<Rightarrow> GridState \<Rightarrow> GridState" where
  "timeoutCallback capturedLength st =
     (let newCount = visibleCount st + 8
      in st\<lparr> visibleCount := newCount, hasMore := (newCount < capturedLength),
              isLoadingMore := False \<rparr>)"

text \<open>
  A call of \<^verbatim>\<open>loadMoreProperties\<close> together with its timer: \<open>during\<close> stands for
  what the grid handles in the delay; then the scheduled callback, if any, runs with the
  length it captured at the call.
\<close>

definition loadMoreAndWait :: "(GridState \<Rightarrow> GridState) \<Rightarrow> GridState \<Rightarrow> GridState" where
  "loadMoreAndWait during st =
     (case loadMoreProperties st of
        (st1, None) \<Rightarrow> during st1
      | (st1, Some capturedLength) \<Rightarrow> timeoutCallback capturedLength (during st1))"

text \<open>\<^verbatim>\<open>filteredProperties.slice(0, visibleCount)\<close>.\<close>

definition visibleProperties :: "GridState \<Rightarrow> Property list" where
  "visibleProperties st = take (visibleCount st) (filteredProperties st)"

text \<open>The \<^verbatim>\<open>properties\<close> prop of the comparison overlay and the guard of the compare button.\<close>

definition compareProperties :: "GridState \<Rightarrow> Property list" where
  "compareProperties st =
     take 4 (filter (\<lambda>p. id_p p |\<in>| selectedIds st) (filteredProperties st))"

definition compareButtonShown :: "GridState \<Rightarrow> bool" where
  "compareButtonShown st = (fcard (selectedIds st) \<ge> 2)"

text \<open>The events that change the grid state, and runs of them.\<close>

datatype event =
    ToggleSelect string bool
  | PropertiesChanged "Property list"
  | FilteredChanged "Property list"
  | LoadMore
  | TimeoutFired nat

fun step :: "event \<Rightarrow> GridState \<Rightarrow> GridState" where
  "step (ToggleSelect ident checked) st =
     st\<lparr> selectedIds := toggleSelect ident checked (selectedIds st) \<rparr>"
| "step (PropertiesChanged properties) st = propertiesEffect properties st"
| "step (FilteredChanged filtered) st = setFilteredProperties filtered st"
| "step LoadMore st = fst (loadMoreProperties st)"
| "step (TimeoutFired capturedLength) st = timeoutCallback capturedLength st"

definition run :: "event list \<Rightarrow> GridState \<Rightarrow> GridState" where
  "run evs st = fold step evs st"


section \<open>CompareModal: best-value annotations\<close>

text \<open>\<open>currentYear\<close> stands for \<^verbatim>\<open>new Date().getFullYear()\<close>. A \<^verbatim>\<open>year_built\<close> of 0 is
  falsy, so it gives no age, like an absent one.\<close>

definition age :: "rat \<Rightarrow> Property \<Rightarrow> rat option" where
  "age currentYear p =
     (case year_built p of
        None \<Rightarrow> None
      | Some y \<Rightarrow> if y = 0 then None else Some (currentYear - y))"

definition bestPrice :: "Property list \<Rightarrow> number" where
  "bestPrice properties = Math_min (map (\<lambda>p. Num (totalPrice p)) properties)"

definition bestSize :: "Property list \<Rightarrow> number" where
  "bestSize properties = Math_max (map (\<lambda>p. Num (total_sqft p)) properties)"

definition bestAge :: "rat \<Rightarrow> Property list \<Rightarrow> number" where
  "bestAge currentYear properties =
     Math_min (map (\<lambda>p. case age currentYear p of None \<Rightarrow> PosInfinity | Some a \<Rightarrow> Num a) properties)"

definition isPriceBest :: "Property list \<Rightarrow> Property \<Rightarrow> bool" where
  "isPriceBest properties property = (Num (totalPrice property) = bestPrice properties)"

definition isSizeBest :: "Property list \<Rightarrow> Property \<Rightarrow> bool" where
  "isSizeBest properties property = (Num (total_sqft property) = bestSize properties)"

definition isAgeBest :: "rat \<Rightarrow> Property list \<Rightarrow> Property \<Rightarrow> bool" where
  "isAgeBest currentYear properties property =
     (case age currentYear property of
        None \<Rightarrow> False
      | Some a \<Rightarrow> Num a = bestAge currentYear properties)"


section \<open>PropertyGrid: the first render\<close>










section \<open>Reference notions and sample listings\<close>

text \<open>
  The ages of the listings that have a year built, as the specification of the comparison
  speaks of them (independent of how the overlay computes its best age).
\<close>

definition builtAges :: "rat \<Rightarrow> Property list \<Rightarrow> rat list" where
  "builtAges currentYear ps =
     concat (map (\<lambda>q. case year_built q of None \<Rightarrow> [] | Some y \<Rightarrow> [currentYear - y]) ps)"

text \<open>The two listings of the end-to-end scenario of the specification.\<close>

definition exampleListing :: "string \<Rightarrow> string \<Rightarrow> rat \<Rightarrow> rat \<Rightarrow> rat option \<Rightarrow> Property" where
  "exampleListing i t pps sqft yb =
     \<lparr> id_p = i, title = [], description = [], type = t,
       address = \<lparr> street = [], city = [], state = [], zip_code = [] \<rparr>,
       price_per_sqft = pps, total_sqft = sqft, year_built = yb, date_listed = [],
       amenities = [], images = [] \<rparr>"

definition listing_a :: Property where
  "listing_a = exampleListing ''a'' ''office'' 10 1000 (Some 2020)"

definition listing_b :: Property where
  "listing_b = exampleListing ''b'' ''warehouse'' 5 5000 (Some 2000)"


text \<open>Two sample states of the grid.\<close>

definition revealed16of20 :: GridState where
  "revealed16of20 =
     \<lparr> filteredProperties = replicate 20 listing_a, selectedIds = {||}, isCompareOpen = False,
       visibleCount = 16, isLoadingMore = False, hasMore = True \<rparr>"

definition bothSelected :: GridState where
  "bothSelected =
     \<lparr> filteredProperties = [listing_a, listing_b], selectedIds = {|''a'', ''b''|},
       isCompareOpen = False, visibleCount = 8, isLoadingMore = False, hasMore = False \<rparr>"


text \<open>
  The text-search predicate as the specification words it: the lower-cased term occurs in
  the title, the description, the city, the state or an amenity, taken as they are.
\<close>

definition claimedSearchMatch :: "string \<Rightarrow> Property \<Rightarrow> bool" where
  "claimedSearchMatch term p =
     (sublist (toLowerCase term) (title p) \<or>
      sublist (toLowerCase term) (description p) \<or>
      sublist (toLowerCase term) (city (address p)) \<or>
      sublist (toLowerCase term) (state (address p)) \<or>
      list_ex (\<lambda>amenity. sublist (toLowerCase term) amenity) (amenities p))"

text \<open>
  Two listings have the same value of the selected sort key. For a value of \<^verbatim>\<open>sortBy\<close>
  outside the seven options the comparator is constantly 0 and all listings tie.
\<close>

definition sameSortKey :: "(string \<Rightarrow> rat) \<Rightarrow> string \<Rightarrow> Property \<Rightarrow> Property \<Rightarrow> bool" where
  "sameSortKey getTime sortKey a b =
     (if sortKey = ''date_listed'' \<or> sortKey = ''date_listed_old''
        then getTime (date_listed a) = getTime (date_listed b)
      else if sortKey = ''price_low'' \<or> sortKey = ''price_high''
        then totalPrice a = totalPrice b
      else if sortKey = ''size_large'' \<or> sortKey = ''size_small''
        then total_sqft a = total_sqft b
      else if sortKey = ''title'' then title a = title b
      else True)"

text \<open>More sample data: a listing priced like listing a, a listing with a capitalized title,
  and criteria whose ranges admit all the samples.\<close>

definition listing_c :: Property where
  "listing_c = exampleListing ''c'' ''retail'' 20 500 None"

definition listing_tower :: Property where
  "listing_tower = listing_a\<lparr> title := ''Office Tower'' \<rparr>"

definition wideFilters :: FilterState where
  "wideFilters = initialFilters\<lparr> priceRange := (Num 0, Num 100000), sizeRange := (Num 0, Num 10000) \<rparr>"


text \<open>A listing with every field filled and criteria with every filter active; two more
  listings for a tie in total area.\<close>

definition listing_plaza :: Property where
  "listing_plaza =
     \<lparr> id_p = ''p'', title = ''Office Plaza'', description = ''Class A space'', type = ''office'',
       address = \<lparr> street = ''1 Main St'', city = ''Austin'', state = ''TX'', zip_code = ''78701'' \<rparr>,
       price_per_sqft = 30, total_sqft = 2000, year_built = Some 2015,
       date_listed = ''2024-01-15'', amenities = [''Parking'', ''Security''], images = [] \<rparr>"

definition strictFilters :: FilterState where
  "strictFilters =
     wideFilters\<lparr> selectedTypes := [''office''], selectedLocations := [''Austin, TX''],
       selectedAmenities := [''Parking''] \<rparr>"

definition listing_d :: Property where
  "listing_d = exampleListing ''d'' ''office'' 12 1000 None"

definition listing_e :: Property where
  "listing_e = exampleListing ''e'' ''retail'' 9 900 (Some 1990)"


section \<open>Selection tracker\<close>

lemma fcard_toggleSelect_le:
  "fcard s \<le> 4 \<Longrightarrow> fcard (toggleSelect i c s) \<le> 4"
proof (cases c)
  case True
  assume le: "fcard s \<le> 4"
  show ?thesis
  proof (cases "fcard s \<ge> 4")
    case True
    with \<open>c\<close> le show ?thesis by (simp add: toggleSelect_def)
  next
    case False
    then have "fcard (finsert i s) \<le> 4" by (simp add: fcard_finsert_if)
    with \<open>c\<close> False show ?thesis by (simp add: toggleSelect_def)
  qed
next
  case False
  assume le: "fcard s \<le> 4"
  have "fcard (s |-| {|i|}) \<le> fcard s" by (rule fcard_fminus1_le)
  with le False show ?thesis by (simp add: toggleSelect_def)
qed

lemma selectedIds_propertiesEffect: "selectedIds (propertiesEffect ps st) = selectedIds st"
  by (simp add: propertiesEffect_def)

lemma selectedIds_setFilteredProperties:
  "selectedIds (setFilteredProperties filtered st) = selectedIds st"
  by (simp add: setFilteredProperties_def filteredEffect_def)

lemma selectedIds_loadMoreProperties: "selectedIds (fst (loadMoreProperties st)) = selectedIds st"
  by (simp add: loadMoreProperties_def)

lemma selectedIds_timeoutCallback: "selectedIds (timeoutCallback n st) = selectedIds st"
  by (simp add: timeoutCallback_def Let_def)

lemma fcard_selectedIds_step:
  "fcard (selectedIds st) \<le> 4 \<Longrightarrow> fcard (selectedIds (step e st)) \<le> 4"
  by (cases e)
     (simp_all add: fcard_toggleSelect_le selectedIds_propertiesEffect
        selectedIds_setFilteredProperties selectedIds_loadMoreProperties
        selectedIds_timeoutCallback)

lemma fcard_selectedIds_run:
  "fcard (selectedIds st) \<le> 4 \<Longrightarrow> fcard (selectedIds (run evs st)) \<le> 4"
  unfolding run_def
  by (induction evs arbitrary: st) (simp_all add: fcard_selectedIds_step)

lemma fcard_fold_toggleSelect:
  "fcard s \<le> 4 \<Longrightarrow> fcard (fold (\<lambda>(i, c). toggleSelect i c) ops s) \<le> 4"
  by (induction ops arbitrary: s) (auto simp: fcard_toggleSelect_le)

lemma toggleSelect_on_below:
  "fcard s < 4 \<Longrightarrow> toggleSelect i True s = finsert i s"
  by (simp add: toggleSelect_def)

lemma toggleSelect_on_full:
  "fcard s \<ge> 4 \<Longrightarrow> toggleSelect i True s = s"
  by (simp add: toggleSelect_def)

lemma five_on:
  assumes "distinct [a, b, c, d, e]"
  shows "fold (\<lambda>i. toggleSelect i True) [a, b, c, d, e] {||} = {|a, b, c, d|}"
    and "fcard (fold (\<lambda>i. toggleSelect i True) [a, b, c, d, e] {||}) = 4"
proof -
  from assms have ne: "a \<noteq> b" "a \<noteq> c" "a \<noteq> d" "b \<noteq> c" "b \<noteq> d" "c \<noteq> d"
    by simp_all
  have c1: "fcard {|a|} = 1"
    by (simp add: fcard_finsert_if fcard_fempty)
  have c2: "fcard {|b, a|} = 2"
    using ne c1 by (simp add: fcard_finsert_if)
  have c3: "fcard {|c, b, a|} = 3"
    using ne c2 by (simp add: fcard_finsert_if)
  have c4: "fcard {|d, c, b, a|} = 4"
    using ne c3 by (simp add: fcard_finsert_if)
  have s1: "toggleSelect a True {||} = {|a|}"
    by (rule toggleSelect_on_below) (simp add: fcard_fempty)
  have s2: "toggleSelect b True {|a|} = {|b, a|}"
    by (rule toggleSelect_on_below) (simp add: c1)
  have s3: "toggleSelect c True {|b, a|} = {|c, b, a|}"
    by (rule toggleSelect_on_below) (simp add: c2)
  have s4: "toggleSelect d True {|c, b, a|} = {|d, c, b, a|}"
    by (rule toggleSelect_on_below) (simp add: c3)
  have s5: "toggleSelect e True {|d, c, b, a|} = {|d, c, b, a|}"
    by (rule toggleSelect_on_full) (simp add: c4)
  have r: "fold (\<lambda>i. toggleSelect i True) [a, b, c, d, e] {||} = {|d, c, b, a|}"
    by (simp add: s1 s2 s3 s4 s5)
  have "{|d, c, b, a|} = {|a, b, c, d|}"
    by auto
  with r show "fold (\<lambda>i. toggleSelect i True) [a, b, c, d, e] {||} = {|a, b, c, d|}"
    by simp
  from r c4 show "fcard (fold (\<lambda>i. toggleSelect i True) [a, b, c, d, e] {||}) = 4"
    by simp
qed

text \<open>
  Claim C3. Toggling a listing on when four ids are selected returns the selection
  unchanged; toggling off gives the selection without that id; hence after any sequence of
  toggles from the empty selection, and after any run of grid events from the initial
  state, at most four ids are selected; and toggling five distinct ids on, from the empty
  selection, selects exactly the first four.
\<close>

theorem toggleSelect_cap:
  "(fcard s = 4 \<longrightarrow> toggleSelect i True s = s) \<and>
   toggleSelect i False s = s |-| {|i|} \<and>
   i |\<notin>| toggleSelect i False s \<and>
   fcard (fold (\<lambda>(i, c). toggleSelect i c) ops {||}) \<le> 4 \<and>
   fcard (selectedIds (run evs (initialGrid ps))) \<le> 4 \<and>
   (distinct [a, b, c, d, e] \<longrightarrow>
      fold (\<lambda>i. toggleSelect i True) [a, b, c, d, e] {||} = {|a, b, c, d|} \<and>
      fcard (fold (\<lambda>i. toggleSelect i True) [a, b, c, d, e] {||}) = 4)"
proof -
  have 1: "fcard s = 4 \<longrightarrow> toggleSelect i True s = s"
    by (simp add: toggleSelect_def)
  have 2: "toggleSelect i False s = s |-| {|i|}"
    by (simp add: toggleSelect_def)
  have 3: "i |\<notin>| toggleSelect i False s"
    by (simp add: toggleSelect_def)
  have 4: "fcard (fold (\<lambda>(i, c). toggleSelect i c) ops {||}) \<le> 4"
    by (rule fcard_fold_toggleSelect) (simp add: fcard_fempty)
  have 5: "fcard (selectedIds (run evs (initialGrid ps))) \<le> 4"
    by (rule fcard_selectedIds_run) (simp add: initialGrid_def fcard_fempty)
  have 6: "distinct [a, b, c, d, e] \<longrightarrow>
      fold (\<lambda>i. toggleSelect i True) [a, b, c, d, e] {||} = {|a, b, c, d|} \<and>
      fcard (fold (\<lambda>i. toggleSelect i True) [a, b, c, d, e] {||}) = 4"
  proof (intro impI conjI)
    assume dist: "distinct [a, b, c, d, e]"
    show "fold (\<lambda>i. toggleSelect i True) [a, b, c, d, e] {||} = {|a, b, c, d|}"
      by (rule five_on(1) [OF dist])
    show "fcard (fold (\<lambda>i. toggleSelect i True) [a, b, c, d, e] {||}) = 4"
      by (rule five_on(2) [OF dist])
  qed
  show ?thesis
    by (rule conjI [OF 1 conjI [OF 2 conjI [OF 3 conjI [OF 4 conjI [OF 5 6]]]]])
qed

text \<open>The theorem at a full selection and at five concrete ids.\<close>

theorem toggleSelect_cap_witness:
  "fcard {|''p1'', ''p2'', ''p3'', ''p4''|} = 4 \<and>
   toggleSelect ''p5'' True {|''p1'', ''p2'', ''p3'', ''p4''|} = {|''p1'', ''p2'', ''p3'', ''p4''|} \<and>
   distinct [''p1'', ''p2'', ''p3'', ''p4'', ''p5''] \<and>
   fold (\<lambda>i. toggleSelect i True) [''p1'', ''p2'', ''p3'', ''p4'', ''p5''] {||}
     = {|''p1'', ''p2'', ''p3'', ''p4''|}"
proof -
  have h1: "fcard {|''p1'', ''p2'', ''p3'', ''p4''|} = 4"
    by (simp add: fcard_finsert_if fcard_fempty)
  have h2: "distinct [''p1'', ''p2'', ''p3'', ''p4'', ''p5'']"
    by simp
  note t = toggleSelect_cap [where s = "{|''p1'', ''p2'', ''p3'', ''p4''|}" and i = "''p5''"
      and a = "''p1''" and b = "''p2''" and c = "''p3''" and d = "''p4''" and e = "''p5''"]
  have r1: "toggleSelect ''p5'' True {|''p1'', ''p2'', ''p3'', ''p4''|}
      = {|''p1'', ''p2'', ''p3'', ''p4''|}"
    by (rule mp [OF t [THEN conjunct1] h1])
  have r2: "fold (\<lambda>i. toggleSelect i True) [''p1'', ''p2'', ''p3'', ''p4'', ''p5''] {||}
     = {|''p1'', ''p2'', ''p3'', ''p4''|}"
    by (rule conjunct1 [OF mp [OF t [THEN conjunct2, THEN conjunct2, THEN conjunct2,
            THEN conjunct2, THEN conjunct2] h2]])
  show ?thesis
    by (rule conjI [OF h1 conjI [OF r1 conjI [OF h2 r2]]])
qed


section \<open>Math.min and Math.max\<close>

lemma le_PosInfinity: "(x::number) \<le> PosInfinity"
  by (cases x) simp_all

lemma NegInfinity_le: "NegInfinity \<le> (x::number)"
  by simp

lemma Num_le_iff: "Num a \<le> Num b \<longleftrightarrow> a \<le> b"
  by simp

lemma fold_min_Min: "fold min xs (a::number) = Min (insert a (set xs))"
  using Min.set_eq_fold [of a xs] by simp

lemma fold_max_Max: "fold max xs (a::number) = Max (insert a (set xs))"
  using Max.set_eq_fold [of a xs] by simp

lemma Math_min_eq_iff:
  assumes "x \<in> set xs"
  shows "x = Math_min xs \<longleftrightarrow> (\<forall>y\<in>set xs. x \<le> y)"
proof -
  have fin: "finite (insert PosInfinity (set xs))" by simp
  have mem: "x \<in> insert PosInfinity (set xs)" using assms by simp
  have "x = Min (insert PosInfinity (set xs)) \<longleftrightarrow> (\<forall>y\<in>insert PosInfinity (set xs). x \<le> y)"
  proof
    assume "x = Min (insert PosInfinity (set xs))"
    then show "\<forall>y\<in>insert PosInfinity (set xs). x \<le> y"
      using Min_le [OF fin] by blast
  next
    assume "\<forall>y\<in>insert PosInfinity (set xs). x \<le> y"
    then have "Min (insert PosInfinity (set xs)) = x"
      using mem fin by (intro Min_eqI) auto
    then show "x = Min (insert PosInfinity (set xs))" by simp
  qed
  then show ?thesis
    by (simp add: Math_min_def fold_min_Min le_PosInfinity)
qed

lemma Math_max_eq_iff:
  assumes "x \<in> set xs"
  shows "x = Math_max xs \<longleftrightarrow> (\<forall>y\<in>set xs. y \<le> x)"
proof -
  have fin: "finite (insert NegInfinity (set xs))" by simp
  have mem: "x \<in> insert NegInfinity (set xs)" using assms by simp
  have "x = Max (insert NegInfinity (set xs)) \<longleftrightarrow> (\<forall>y\<in>insert NegInfinity (set xs). y \<le> x)"
  proof
    assume "x = Max (insert NegInfinity (set xs))"
    then show "\<forall>y\<in>insert NegInfinity (set xs). y \<le> x"
      using Max_ge [OF fin] by blast
  next
    assume "\<forall>y\<in>insert NegInfinity (set xs). y \<le> x"
    then have "Max (insert NegInfinity (set xs)) = x"
      using mem fin by (intro Max_eqI) auto
    then show "x = Max (insert NegInfinity (set xs))" by simp
  qed
  then show ?thesis
    by (simp add: Math_max_def fold_max_Max)
qed

lemma Min_image_eq_iff:
  fixes f :: "'a \<Rightarrow> rat"
  assumes "finite A" "p \<in> A"
  shows "f p = Min (f ` A) \<longleftrightarrow> (\<forall>q\<in>A. f p \<le> f q)"
proof
  assume "f p = Min (f ` A)"
  then show "\<forall>q\<in>A. f p \<le> f q" using assms by simp
next
  assume "\<forall>q\<in>A. f p \<le> f q"
  then have "Min (f ` A) = f p" using assms by (intro Min_eqI) auto
  then show "f p = Min (f ` A)" by simp
qed

lemma Max_image_eq_iff:
  fixes f :: "'a \<Rightarrow> rat"
  assumes "finite A" "p \<in> A"
  shows "f p = Max (f ` A) \<longleftrightarrow> (\<forall>q\<in>A. f q \<le> f p)"
proof
  assume "f p = Max (f ` A)"
  then show "\<forall>q\<in>A. f q \<le> f p" using assms by simp
next
  assume "\<forall>q\<in>A. f q \<le> f p"
  then have "Max (f ` A) = f p" using assms by (intro Max_eqI) auto
  then show "f p = Max (f ` A)" by simp
qed

section \<open>Comparison calculator\<close>

lemma isPriceBest_iff:
  assumes "p \<in> set ps"
  shows "isPriceBest ps p \<longleftrightarrow> totalPrice p = Min (totalPrice ` set ps)"
proof -
  have "Num (totalPrice p) \<in> set (map (\<lambda>p. Num (totalPrice p)) ps)"
    using assms by simp
  then have "isPriceBest ps p \<longleftrightarrow> (\<forall>q\<in>set ps. totalPrice p \<le> totalPrice q)"
    unfolding isPriceBest_def bestPrice_def by (simp add: Math_min_eq_iff)
  also have "\<dots> \<longleftrightarrow> totalPrice p = Min (totalPrice ` set ps)"
    using assms by (simp add: Min_image_eq_iff)
  finally show ?thesis .
qed

lemma isSizeBest_iff:
  assumes "p \<in> set ps"
  shows "isSizeBest ps p \<longleftrightarrow> total_sqft p = Max (total_sqft ` set ps)"
proof -
  have "Num (total_sqft p) \<in> set (map (\<lambda>p. Num (total_sqft p)) ps)"
    using assms by simp
  then have "isSizeBest ps p \<longleftrightarrow> (\<forall>q\<in>set ps. total_sqft q \<le> total_sqft p)"
    unfolding isSizeBest_def bestSize_def by (simp add: Math_max_eq_iff)
  also have "\<dots> \<longleftrightarrow> total_sqft p = Max (total_sqft ` set ps)"
    using assms by (simp add: Max_image_eq_iff)
  finally show ?thesis .
qed


lemma mem_builtAges:
  "a \<in> set (builtAges cy ps) \<longleftrightarrow> (\<exists>q\<in>set ps. \<exists>z. year_built q = Some z \<and> a = cy - z)"
proof
  assume "a \<in> set (builtAges cy ps)"
  then obtain q where q: "q \<in> set ps"
    and a: "a \<in> set (case year_built q of None \<Rightarrow> [] | Some y \<Rightarrow> [cy - y])"
    by (auto simp: builtAges_def)
  from a obtain z where "year_built q = Some z" "a = cy - z"
    by (cases "year_built q") simp_all
  with q show "\<exists>q\<in>set ps. \<exists>z. year_built q = Some z \<and> a = cy - z" by blast
next
  assume "\<exists>q\<in>set ps. \<exists>z. year_built q = Some z \<and> a = cy - z"
  then obtain q z where q: "q \<in> set ps" and z: "year_built q = Some z" "a = cy - z" by blast
  then have "a \<in> set (case year_built q of None \<Rightarrow> [] | Some y \<Rightarrow> [cy - y])" by simp
  with q show "a \<in> set (builtAges cy ps)"
    unfolding builtAges_def by (simp only: set_concat set_map) blast
qed

lemma age_None: "year_built p = None \<Longrightarrow> age cy p = None"
  by (simp add: age_def)

lemma age_Some: "year_built p = Some y \<Longrightarrow> y \<noteq> 0 \<Longrightarrow> age cy p = Some (cy - y)"
  by (simp add: age_def)

lemma isAgeBest_None: "year_built p = None \<Longrightarrow> \<not> isAgeBest cy ps p"
  by (simp add: isAgeBest_def age_None)

lemma isAgeBest_Some:
  assumes mem: "p \<in> set ps"
    and wf: "\<forall>q\<in>set ps. \<forall>y. year_built q = Some y \<longrightarrow> 0 < y"
    and yb: "year_built p = Some y"
  shows "isAgeBest cy ps p \<longleftrightarrow> cy - y = Min (set (builtAges cy ps))"
proof -
  let ?g = "\<lambda>p. case age cy p of None \<Rightarrow> PosInfinity | Some a \<Rightarrow> Num a"
  from wf mem yb have y0: "y \<noteq> 0" by auto
  then have ap: "age cy p = Some (cy - y)" using yb by (simp add: age_Some)
  have g: "?g q = (case year_built q of None \<Rightarrow> PosInfinity | Some z \<Rightarrow> Num (cy - z))"
    if "q \<in> set ps" for q
  proof (cases "year_built q")
    case None
    then show ?thesis by (simp add: age_None)
  next
    case (Some z)
    with wf that have "z \<noteq> 0" by auto
    with Some show ?thesis by (simp add: age_Some)
  qed
  have "Num (cy - y) \<in> set (map ?g ps)"
    using mem ap by (force simp: image_iff)
  then have "isAgeBest cy ps p \<longleftrightarrow> (\<forall>q\<in>set ps. Num (cy - y) \<le> ?g q)"
    unfolding isAgeBest_def bestAge_def using ap by (simp add: Math_min_eq_iff)
  also have "\<dots> \<longleftrightarrow> (\<forall>q\<in>set ps. \<forall>z. year_built q = Some z \<longrightarrow> cy - y \<le> cy - z)"
  proof (intro ball_cong refl)
    fix q assume "q \<in> set ps"
    then show "(Num (cy - y) \<le> ?g q) = (\<forall>z. year_built q = Some z \<longrightarrow> cy - y \<le> cy - z)"
      by (cases "year_built q") (simp_all add: g le_PosInfinity)
  qed
  also have "\<dots> \<longleftrightarrow> (\<forall>a\<in>set (builtAges cy ps). cy - y \<le> a)"
  proof
    assume l: "\<forall>q\<in>set ps. \<forall>z. year_built q = Some z \<longrightarrow> cy - y \<le> cy - z"
    show "\<forall>a\<in>set (builtAges cy ps). cy - y \<le> a"
    proof
      fix a assume "a \<in> set (builtAges cy ps)"
      then obtain q z where "q \<in> set ps" "year_built q = Some z" "a = cy - z"
        unfolding mem_builtAges by blast
      with l show "cy - y \<le> a" by blast
    qed
  next
    assume r: "\<forall>a\<in>set (builtAges cy ps). cy - y \<le> a"
    show "\<forall>q\<in>set ps. \<forall>z. year_built q = Some z \<longrightarrow> cy - y \<le> cy - z"
    proof (intro ballI allI impI)
      fix q z assume "q \<in> set ps" "year_built q = Some z"
      then have "cy - z \<in> set (builtAges cy ps)"
        unfolding mem_builtAges by blast
      with r show "cy - y \<le> cy - z" by blast
    qed
  qed
  also have "\<dots> \<longleftrightarrow> cy - y = Min (set (builtAges cy ps))"
  proof -
    have in_ages: "cy - y \<in> set (builtAges cy ps)"
      using mem yb mem_builtAges by blast
    show ?thesis
    proof
      assume "\<forall>a\<in>set (builtAges cy ps). cy - y \<le> a"
      then have "Min (set (builtAges cy ps)) = cy - y"
        using in_ages by (intro Min_eqI) auto
      then show "cy - y = Min (set (builtAges cy ps))" by simp
    next
      assume "cy - y = Min (set (builtAges cy ps))"
      then show "\<forall>a\<in>set (builtAges cy ps). cy - y \<le> a" by simp
    qed
  qed
  finally show ?thesis .
qed

text \<open>
  Claim C2. For two to four listings whose year built, where present, is positive (the
  data model of the listings), a listing of the input is marked price-best exactly when
  its total price is the minimum total price of the input, size-best exactly when its
  total area is the maximum total area, and age-best exactly when it has a year built
  and its age is the minimum of the ages of the listings that have one. The marks are
  decided by equality with the best value, so every listing that ties it is marked; and
  when no listing has a year built, none is marked age-best.
\<close>

theorem compare_best:
  assumes len: "2 \<le> length ps" "length ps \<le> 4"
    and mem: "p \<in> set ps"
    and wf: "\<forall>q\<in>set ps. \<forall>y. year_built q = Some y \<longrightarrow> 0 < y"
  shows "(isPriceBest ps p \<longleftrightarrow> totalPrice p = Min (totalPrice ` set ps)) \<and>
         (isSizeBest ps p \<longleftrightarrow> total_sqft p = Max (total_sqft ` set ps)) \<and>
         (isAgeBest cy ps p \<longleftrightarrow>
            (\<exists>y. year_built p = Some y \<and> cy - y = Min (set (builtAges cy ps)))) \<and>
         ((\<forall>q\<in>set ps. year_built q = None) \<longrightarrow> \<not> isAgeBest cy ps p)"
proof (intro conjI)
  show "isPriceBest ps p \<longleftrightarrow> totalPrice p = Min (totalPrice ` set ps)"
    by (rule isPriceBest_iff [OF mem])
  show "isSizeBest ps p \<longleftrightarrow> total_sqft p = Max (total_sqft ` set ps)"
    by (rule isSizeBest_iff [OF mem])
  show "isAgeBest cy ps p \<longleftrightarrow>
          (\<exists>y. year_built p = Some y \<and> cy - y = Min (set (builtAges cy ps)))"
  proof (cases "year_built p")
    case None
    then show ?thesis by (simp add: isAgeBest_None)
  next
    case (Some y)
    then show ?thesis using isAgeBest_Some [OF mem wf Some] by simp
  qed
  show "(\<forall>q\<in>set ps. year_built q = None) \<longrightarrow> \<not> isAgeBest cy ps p"
    using mem by (auto simp: isAgeBest_None)
qed

lemma listing_simps:
  "totalPrice listing_a = 10000" "totalPrice listing_b = 25000"
  "total_sqft listing_a = 1000" "total_sqft listing_b = 5000"
  "year_built listing_a = Some 2020" "year_built listing_b = Some 2000"
  by (simp_all add: listing_a_def listing_b_def exampleListing_def totalPrice_def)

text \<open>The scenario of the specification: listing a against listing b, in 2025.\<close>

theorem compare_best_witness:
  "2 \<le> length [listing_a, listing_b] \<and> length [listing_a, listing_b] \<le> 4 \<and>
   listing_a \<in> set [listing_a, listing_b] \<and>
   isPriceBest [listing_a, listing_b] listing_a \<and>
   \<not> isSizeBest [listing_a, listing_b] listing_a \<and>
   isAgeBest 2025 [listing_a, listing_b] listing_a"
proof -
  have h1: "2 \<le> length [listing_a, listing_b]" by simp
  have h2: "length [listing_a, listing_b] \<le> 4" by simp
  have h3: "listing_a \<in> set [listing_a, listing_b]" by simp
  have h4: "\<forall>q\<in>set [listing_a, listing_b]. \<forall>y. year_built q = Some y \<longrightarrow> 0 < y"
    by (simp add: listing_simps)
  note t = compare_best [OF h1 h2 h3 h4, of 2025]
  have r1: "isPriceBest [listing_a, listing_b] listing_a"
    using t [THEN conjunct1] by (simp add: listing_simps)
  have r2: "\<not> isSizeBest [listing_a, listing_b] listing_a"
    using t [THEN conjunct2, THEN conjunct1] by (simp add: listing_simps)
  have r3: "isAgeBest 2025 [listing_a, listing_b] listing_a"
    using t [THEN conjunct2, THEN conjunct2, THEN conjunct1]
    by (simp add: listing_simps builtAges_def)
  show ?thesis
    by (rule conjI [OF h1 conjI [OF h2 conjI [OF h3 conjI [OF r1 conjI [OF r2 r3]]]]])
qed


text \<open>Total areas 1000, 1000 and 900: exactly the first two listings are size-best.\<close>

lemma comparison_tie_example:
  "isSizeBest [listing_a, listing_d, listing_e] listing_a \<and>
   isSizeBest [listing_a, listing_d, listing_e] listing_d \<and>
   \<not> isSizeBest [listing_a, listing_d, listing_e] listing_e"
  by (simp add: isSizeBest_def bestSize_def Math_max_def listing_a_def listing_d_def
      listing_e_def exampleListing_def)


section \<open>Reveal window\<close>

lemma setFilteredProperties_fields:
  "filteredProperties (setFilteredProperties new st) = new"
  "visibleCount (setFilteredProperties new st) = 8"
  "hasMore (setFilteredProperties new st) = (8 < length new)"
  "isLoadingMore (setFilteredProperties new st) = isLoadingMore st"
  by (simp_all add: setFilteredProperties_def filteredEffect_def)

lemma propertiesEffect_fields:
  "filteredProperties (propertiesEffect props st) = props"
  "visibleCount (propertiesEffect props st) = 8"
  "hasMore (propertiesEffect props st) = (8 < length props)"
  by (simp_all add: propertiesEffect_def)

lemma timeoutCallback_fields:
  "filteredProperties (timeoutCallback n st) = filteredProperties st"
  "visibleCount (timeoutCallback n st) = visibleCount st + 8"
  "hasMore (timeoutCallback n st) = (visibleCount st + 8 < n)"
  "isLoadingMore (timeoutCallback n st) = False"
  by (simp_all add: timeoutCallback_def Let_def)

lemma length_visibleProperties:
  "length (visibleProperties st) = min (visibleCount st) (length (filteredProperties st))"
  by (simp add: visibleProperties_def min.commute)

text \<open>
  Claim C4. When the filter effect hands over a new filtered sequence, or the root
  collection is replaced, the reveal count is 8 again and the more-to-load flag is
  recomputed against the new length. In particular, from a state that revealed 16 of 20
  items, a new sequence of 5 items gives a reveal count of 8, all 5 items visible, and no
  more to load.
\<close>

theorem reveal_reset:
  "visibleCount (setFilteredProperties new st) = 8 \<and>
   hasMore (setFilteredProperties new st)
     = (visibleCount (setFilteredProperties new st)
          < length (filteredProperties (setFilteredProperties new st))) \<and>
   filteredProperties (setFilteredProperties new st) = new \<and>
   visibleCount (propertiesEffect props st) = 8 \<and>
   hasMore (propertiesEffect props st)
     = (visibleCount (propertiesEffect props st)
          < length (filteredProperties (propertiesEffect props st))) \<and>
   filteredProperties (propertiesEffect props st) = props \<and>
   (length (filteredProperties st) = 20 \<and> visibleCount st = 16 \<and> length new = 5 \<longrightarrow>
      visibleCount (setFilteredProperties new st) = 8 \<and>
      length (visibleProperties (setFilteredProperties new st)) = 5 \<and>
      visibleProperties (setFilteredProperties new st) = new \<and>
      \<not> hasMore (setFilteredProperties new st))"
  by (simp add: setFilteredProperties_fields propertiesEffect_fields visibleProperties_def)

text \<open>The theorem at a state that reveals 16 of 20 listings and a new sequence of 5.\<close>

theorem reveal_reset_witness:
  "length (filteredProperties revealed16of20) = 20 \<and> visibleCount revealed16of20 = 16 \<and>
   length (replicate 5 listing_b) = 5 \<and>
   visibleCount (setFilteredProperties (replicate 5 listing_b) revealed16of20) = 8 \<and>
   length (visibleProperties (setFilteredProperties (replicate 5 listing_b) revealed16of20)) = 5 \<and>
   \<not> hasMore (setFilteredProperties (replicate 5 listing_b) revealed16of20)"
proof -
  have h: "length (filteredProperties revealed16of20) = 20 \<and> visibleCount revealed16of20 = 16 \<and>
      length (replicate 5 listing_b) = 5"
    by (simp add: revealed16of20_def)
  note t = reveal_reset [where st = revealed16of20 and new = "replicate 5 listing_b",
      THEN conjunct2, THEN conjunct2, THEN conjunct2, THEN conjunct2, THEN conjunct2,
      THEN conjunct2, THEN mp, OF h]
  from h t show ?thesis by simp
qed

text \<open>
  The guard of \<open>loadMoreProperties\<close>, and a load during whose delay nothing else
  happens: the reveal count is 8 more, the more-to-load flag says whether the new count is
  below the filtered length, and the loading flag is down.
\<close>

lemma loadMoreProperties_guard:
  "isLoadingMore st \<or> \<not> hasMore st \<Longrightarrow> loadMoreProperties st = (st, None)"
  "\<not> isLoadingMore st \<Longrightarrow> hasMore st \<Longrightarrow>
     loadMoreProperties st
       = (st\<lparr> isLoadingMore := True \<rparr>, Some (length (filteredProperties st)))"
  by (simp_all add: loadMoreProperties_def)

lemma loadMoreAndWait_guarded:
  "isLoadingMore st \<or> \<not> hasMore st \<Longrightarrow> loadMoreAndWait during st = during st"
  by (simp add: loadMoreAndWait_def loadMoreProperties_guard)

lemma loadMoreAndWait_undisturbed:
  assumes "\<not> isLoadingMore st" and "hasMore st"
  shows "visibleCount (loadMoreAndWait (\<lambda>s. s) st) = visibleCount st + 8"
    and "hasMore (loadMoreAndWait (\<lambda>s. s) st)
           = (visibleCount (loadMoreAndWait (\<lambda>s. s) st)
                < length (filteredProperties (loadMoreAndWait (\<lambda>s. s) st)))"
    and "\<not> isLoadingMore (loadMoreAndWait (\<lambda>s. s) st)"
    and "filteredProperties (loadMoreAndWait (\<lambda>s. s) st) = filteredProperties st"
  using assms by (simp_all add: loadMoreAndWait_def loadMoreProperties_guard timeoutCallback_fields)

text \<open>
  Claim C6 against the code. The callback does not recompute the more-to-load flag
  against the filtered length: it compares the new count with the length that
  \<open>loadMoreProperties\<close> captured when it was called. Over 20 listings a load is
  triggered; during the delay the filter effect hands over a sequence of 5 listings,
  which resets the count to 8; then the callback runs: the count is 16, the filtered
  sequence has 5 listings, and the flag says there is more to load, because 16 is below
  the 20 of the sequence that is gone.
\<close>

theorem loadMore_stale_length:
  "\<not> isLoadingMore (initialGrid (replicate 20 listing_a)) \<and>
   hasMore (initialGrid (replicate 20 listing_a)) \<and>
   loadMoreProperties (initialGrid (replicate 20 listing_a))
     = ((initialGrid (replicate 20 listing_a))\<lparr> isLoadingMore := True \<rparr>, Some 20) \<and>
   visibleCount
     (loadMoreAndWait (setFilteredProperties (replicate 5 listing_b))
        (initialGrid (replicate 20 listing_a))) = 16 \<and>
   length (filteredProperties
     (loadMoreAndWait (setFilteredProperties (replicate 5 listing_b))
        (initialGrid (replicate 20 listing_a)))) = 5 \<and>
   hasMore
     (loadMoreAndWait (setFilteredProperties (replicate 5 listing_b))
        (initialGrid (replicate 20 listing_a))) \<and>
   hasMore
     (loadMoreAndWait (setFilteredProperties (replicate 5 listing_b))
        (initialGrid (replicate 20 listing_a)))
     \<noteq> (visibleCount
          (loadMoreAndWait (setFilteredProperties (replicate 5 listing_b))
             (initialGrid (replicate 20 listing_a)))
        < length (filteredProperties
            (loadMoreAndWait (setFilteredProperties (replicate 5 listing_b))
               (initialGrid (replicate 20 listing_a)))))"
proof -
  let ?st = "initialGrid (replicate 20 listing_a)"
  have g: "\<not> isLoadingMore ?st" "hasMore ?st"
    by (simp_all add: initialGrid_def)
  have l: "loadMoreProperties ?st = (?st\<lparr> isLoadingMore := True \<rparr>, Some 20)"
    using loadMoreProperties_guard(2) [OF g] by (simp add: initialGrid_def)
  have w: "loadMoreAndWait (setFilteredProperties (replicate 5 listing_b)) ?st
      = timeoutCallback 20
          (setFilteredProperties (replicate 5 listing_b) (?st\<lparr> isLoadingMore := True \<rparr>))"
    by (simp add: loadMoreAndWait_def l)
  show ?thesis
    unfolding w
    using g l by (simp add: timeoutCallback_fields setFilteredProperties_fields)
qed

text \<open>Runs of events from the initial state: the reveal count is a positive multiple of 8.\<close>

lemma visibleCount_step:
  "8 \<le> visibleCount st \<and> 8 dvd visibleCount st \<Longrightarrow>
   8 \<le> visibleCount (step e st) \<and> 8 dvd visibleCount (step e st)"
  by (cases e)
     (simp_all add: setFilteredProperties_fields propertiesEffect_fields timeoutCallback_fields
        loadMoreProperties_def)

lemma visibleCount_run:
  "8 \<le> visibleCount st \<and> 8 dvd visibleCount st \<Longrightarrow>
   8 \<le> visibleCount (run evs st) \<and> 8 dvd visibleCount (run evs st)"
  unfolding run_def
proof (induction evs arbitrary: st)
  case Nil
  then show ?case by simp
next
  case (Cons e evs)
  from Cons.prems have "8 \<le> visibleCount (step e st) \<and> 8 dvd visibleCount (step e st)"
    by (rule visibleCount_step)
  then show ?case using Cons.IH by simp
qed

text \<open>
  Claim C7, as stated, fails: the reveal count is 8 from the start, also over a filtered
  sequence of two listings, of which two are then materialized.
\<close>

theorem revealCount_exceeds_length_counterexample:
  "visibleCount (initialGrid [listing_a, listing_b]) = 8 \<and>
   length (filteredProperties (initialGrid [listing_a, listing_b])) = 2 \<and>
   length (visibleProperties (initialGrid [listing_a, listing_b])) = 2 \<and>
   \<not> visibleCount (initialGrid [listing_a, listing_b])
       \<le> length (filteredProperties (initialGrid [listing_a, listing_b]))"
  by (simp add: initialGrid_def visibleProperties_def)

text \<open>
  Claim C7, amended. The reveal count starts at 8 and each completed load adds exactly 8,
  so along every run of events it is a positive multiple of 8; it is the number of
  materialized items, the length of the slice, that never exceeds the length of the
  filtered sequence: the materialized items are always the first \<open>visibleCount\<close>
  elements of that sequence, all of it when the count is larger.
\<close>

theorem revealWindow_slice:
  "visibleCount (initialGrid ps) = 8 \<and>
   visibleCount (timeoutCallback n st) = visibleCount st + 8 \<and>
   visibleCount (fst (loadMoreProperties st)) = visibleCount st \<and>
   8 \<le> visibleCount (run evs (initialGrid ps)) \<and>
   8 dvd visibleCount (run evs (initialGrid ps)) \<and>
   visibleProperties st = take (visibleCount st) (filteredProperties st) \<and>
   prefix (visibleProperties st) (filteredProperties st) \<and>
   length (visibleProperties st) = min (visibleCount st) (length (filteredProperties st)) \<and>
   length (visibleProperties st) \<le> length (filteredProperties st)"
proof -
  have init: "8 \<le> visibleCount (initialGrid ps) \<and> 8 dvd visibleCount (initialGrid ps)"
    by (simp add: initialGrid_def)
  have r: "8 \<le> visibleCount (run evs (initialGrid ps)) \<and>
      8 dvd visibleCount (run evs (initialGrid ps))"
    by (rule visibleCount_run [OF init])
  have p: "prefix (visibleProperties st) (filteredProperties st)"
    by (simp add: visibleProperties_def take_is_prefix)
  have l: "visibleCount (fst (loadMoreProperties st)) = visibleCount st"
    by (simp add: loadMoreProperties_def)
  have i: "visibleCount (initialGrid ps) = 8"
    by (simp add: initialGrid_def)
  show ?thesis
    using r p l i
    by (simp add: timeoutCallback_fields length_visibleProperties visibleProperties_def)
qed

text \<open>The theorem at the initial state over two listings and at a completed load.\<close>

theorem revealWindow_slice_witness:
  "visibleCount (initialGrid [listing_a, listing_b]) = 8 \<and>
   visibleCount (timeoutCallback 20 revealed16of20) = 24 \<and>
   length (visibleProperties (timeoutCallback 20 revealed16of20)) = 20 \<and>
   visibleProperties (initialGrid [listing_a, listing_b]) = [listing_a, listing_b]"
proof -
  note t = revealWindow_slice [where ps = "[listing_a, listing_b]" and n = 20
      and st = revealed16of20]
  note u = revealWindow_slice [where st = "timeoutCallback 20 revealed16of20"]
  note v = revealWindow_slice [where st = "initialGrid [listing_a, listing_b]"]
  have r1: "visibleCount (initialGrid [listing_a, listing_b]) = 8"
    by (rule t [THEN conjunct1])
  have r2: "visibleCount (timeoutCallback 20 revealed16of20) = 24"
    using t [THEN conjunct2, THEN conjunct1] by (simp add: revealed16of20_def)
  have r3: "length (visibleProperties (timeoutCallback 20 revealed16of20)) = 20"
    using u [THEN conjunct2, THEN conjunct2, THEN conjunct2, THEN conjunct2, THEN conjunct2,
        THEN conjunct2, THEN conjunct2, THEN conjunct1] r2
    by (simp add: timeoutCallback_fields revealed16of20_def)
  have r4: "visibleProperties (initialGrid [listing_a, listing_b]) = [listing_a, listing_b]"
    using v [THEN conjunct2, THEN conjunct2, THEN conjunct2, THEN conjunct2, THEN conjunct2,
        THEN conjunct1] r1
    by (simp add: initialGrid_def)
  show ?thesis
    by (rule conjI [OF r1 conjI [OF r2 conjI [OF r3 r4]]])
qed


section \<open>Selection and comparison input under filter changes\<close>

lemma compareProperties_subseq: "subseq (compareProperties st) (filteredProperties st)"
proof -
  have "prefix (compareProperties st) (filter (\<lambda>p. id_p p |\<in>| selectedIds st) (filteredProperties st))"
    by (simp add: compareProperties_def take_is_prefix)
  then have "subseq (compareProperties st)
      (filter (\<lambda>p. id_p p |\<in>| selectedIds st) (filteredProperties st))"
    by (rule prefix_imp_subseq)
  moreover have "subseq (filter (\<lambda>p. id_p p |\<in>| selectedIds st) (filteredProperties st))
      (filteredProperties st)"
    by (rule subseq_filter_left)
  ultimately show ?thesis by (rule subseq_order.trans)
qed

lemma set_compareProperties:
  "p \<in> set (compareProperties st) \<Longrightarrow> id_p p |\<in>| selectedIds st \<and> p \<in> set (filteredProperties st)"
proof -
  assume "p \<in> set (compareProperties st)"
  then have "p \<in> set (filter (\<lambda>p. id_p p |\<in>| selectedIds st) (filteredProperties st))"
    unfolding compareProperties_def by (rule in_set_takeD)
  then show ?thesis by simp
qed

text \<open>
  Claim C10. A change of the filtered sequence (or of the root collection) leaves the
  selection as it is, so the ids of listings that the new filters exclude stay selected
  and still count for the compare button, shown from two selected ids on. The comparison
  receives the selected listings of the current filtered sequence, in the order of that
  sequence, cut to four; a listing that is not in the current filtered sequence is not
  in the comparison, selected or not.
\<close>

theorem selection_kept_comparison_filtered:
  "selectedIds (setFilteredProperties new st) = selectedIds st \<and>
   selectedIds (propertiesEffect props st) = selectedIds st \<and>
   fcard (selectedIds (setFilteredProperties new st)) = fcard (selectedIds st) \<and>
   compareButtonShown (setFilteredProperties new st) = compareButtonShown st \<and>
   compareButtonShown st = (2 \<le> fcard (selectedIds st)) \<and>
   compareProperties st
     = take 4 (filter (\<lambda>p. id_p p |\<in>| selectedIds st) (filteredProperties st)) \<and>
   subseq (compareProperties st) (filteredProperties st) \<and>
   length (compareProperties st) \<le> 4 \<and>
   (p \<in> set (compareProperties st) \<longrightarrow>
      id_p p |\<in>| selectedIds st \<and> p \<in> set (filteredProperties st)) \<and>
   (p \<notin> set new \<longrightarrow> p \<notin> set (compareProperties (setFilteredProperties new st)))"
proof -
  have s1: "selectedIds (setFilteredProperties new st) = selectedIds st"
    by (simp add: setFilteredProperties_def filteredEffect_def)
  have s2: "selectedIds (propertiesEffect props st) = selectedIds st"
    by (simp add: propertiesEffect_def)
  have b: "compareButtonShown (setFilteredProperties new st) = compareButtonShown st"
    by (simp add: compareButtonShown_def s1)
  have l: "length (compareProperties st) \<le> 4"
    by (simp add: compareProperties_def)
  have m: "p \<in> set (compareProperties st) \<longrightarrow>
      id_p p |\<in>| selectedIds st \<and> p \<in> set (filteredProperties st)"
    using set_compareProperties by blast
  have x: "p \<notin> set new \<longrightarrow> p \<notin> set (compareProperties (setFilteredProperties new st))"
    using set_compareProperties [of p "setFilteredProperties new st"]
    by (auto simp: setFilteredProperties_fields)
  show ?thesis
    using s1 s2 b l m x compareProperties_subseq [of st]
    by (simp add: compareButtonShown_def compareProperties_def)
qed

text \<open>Both sample listings selected, then a filter change that keeps only listing a.\<close>

theorem selection_kept_comparison_filtered_witness:
  "listing_b \<notin> set [listing_a] \<and>
   selectedIds (setFilteredProperties [listing_a] bothSelected) = {|''a'', ''b''|} \<and>
   compareButtonShown (setFilteredProperties [listing_a] bothSelected) \<and>
   listing_b \<notin> set (compareProperties (setFilteredProperties [listing_a] bothSelected)) \<and>
   listing_a \<in> set (compareProperties bothSelected) \<and>
   id_p listing_a |\<in>| selectedIds bothSelected"
proof -
  note t = selection_kept_comparison_filtered
      [where st = bothSelected and new = "[listing_a]" and p = listing_b]
  note u = selection_kept_comparison_filtered
      [where st = bothSelected and new = "[listing_a]" and p = listing_a]
  have h1: "listing_b \<notin> set [listing_a]"
    by (simp add: listing_a_def listing_b_def exampleListing_def)
  have h2: "listing_a \<in> set (compareProperties bothSelected)"
    by (simp add: compareProperties_def bothSelected_def listing_a_def listing_b_def
        exampleListing_def)
  have c: "fcard (selectedIds bothSelected) = 2"
    by (simp add: bothSelected_def fcard_finsert_if fcard_fempty)
  have r1: "selectedIds (setFilteredProperties [listing_a] bothSelected) = {|''a'', ''b''|}"
    using t [THEN conjunct1] by (simp add: bothSelected_def)
  have r2: "compareButtonShown (setFilteredProperties [listing_a] bothSelected)"
    using t [THEN conjunct2, THEN conjunct2, THEN conjunct2, THEN conjunct1]
      t [THEN conjunct2, THEN conjunct2, THEN conjunct2, THEN conjunct2, THEN conjunct1] c
    by simp
  have r3: "listing_b \<notin> set (compareProperties (setFilteredProperties [listing_a] bothSelected))"
    using t h1 by blast
  have r4: "id_p listing_a |\<in>| selectedIds bothSelected"
    using u h2 by blast
  show ?thesis
    by (rule conjI [OF h1 conjI [OF r1 conjI [OF r2 conjI [OF r3 conjI [OF h2 r4]]]]])
qed


section \<open>Range bounds\<close>

lemma mono_Num: "mono Num"
  by (rule monoI) simp

lemma Math_min_Num:
  assumes "ps \<noteq> []"
  shows "Math_min (map (\<lambda>p. Num (f p)) ps) = Num (Min (f ` set ps))"
proof -
  have ne: "set (map (\<lambda>p. Num (f p)) ps) \<noteq> {}" using assms by simp
  have "Math_min (map (\<lambda>p. Num (f p)) ps)
      = Min (insert PosInfinity (set (map (\<lambda>p. Num (f p)) ps)))"
    by (simp add: Math_min_def fold_min_Min)
  also have "\<dots> = min PosInfinity (Min (set (map (\<lambda>p. Num (f p)) ps)))"
    using ne by (intro Min_insert) simp_all
  also have "\<dots> = Min (set (map (\<lambda>p. Num (f p)) ps))"
    by (simp add: min_def le_PosInfinity antisym)
  also have "\<dots> = Min (Num ` (f ` set ps))"
    by (simp add: image_image)
  also have "\<dots> = Num (Min (f ` set ps))"
    using assms by (intro mono_Min_commute [OF mono_Num, symmetric]) simp_all
  finally show ?thesis .
qed

lemma Math_max_Num:
  assumes "ps \<noteq> []"
  shows "Math_max (map (\<lambda>p. Num (f p)) ps) = Num (Max (f ` set ps))"
proof -
  have ne: "set (map (\<lambda>p. Num (f p)) ps) \<noteq> {}" using assms by simp
  have "Math_max (map (\<lambda>p. Num (f p)) ps)
      = Max (insert NegInfinity (set (map (\<lambda>p. Num (f p)) ps)))"
    by (simp add: Math_max_def fold_max_Max)
  also have "\<dots> = max NegInfinity (Max (set (map (\<lambda>p. Num (f p)) ps)))"
    using ne by (intro Max_insert) simp_all
  also have "\<dots> = Max (set (map (\<lambda>p. Num (f p)) ps))"
    by (simp add: max_def)
  also have "\<dots> = Max (Num ` (f ` set ps))"
    by (simp add: image_image)
  also have "\<dots> = Num (Max (f ` set ps))"
    using assms by (intro mono_Max_commute [OF mono_Num, symmetric]) simp_all
  finally show ?thesis .
qed

lemma minPrice_eq: "ps \<noteq> [] \<Longrightarrow> minPrice ps = Num (Min (totalPrice ` set ps))"
  unfolding minPrice_def totalPrice_def [symmetric] by (rule Math_min_Num)

lemma maxPrice_eq: "ps \<noteq> [] \<Longrightarrow> maxPrice ps = Num (Max (totalPrice ` set ps))"
  unfolding maxPrice_def totalPrice_def [symmetric] by (rule Math_max_Num)

lemma maxSize_eq: "ps \<noteq> [] \<Longrightarrow> maxSize ps = Num (Max (total_sqft ` set ps))"
  unfolding maxSize_def by (rule Math_max_Num)

text \<open>
  Claim C5, as stated, fails for the lower bound of the area range: it is the constant
  600, not the smallest total area of the collection (1000 for the two sample listings).
\<close>

theorem sizeRange_lower_counterexample:
  "fst (sizeRange (initRanges [listing_a, listing_b] initialFilters)) = Num 600 \<and>
   Min (total_sqft ` set [listing_a, listing_b]) = 1000 \<and>
   fst (sizeRange (initRanges [listing_a, listing_b] initialFilters))
     \<noteq> Num (Min (total_sqft ` set [listing_a, listing_b]))"
  by (simp add: initRanges_def minSize_def listing_simps)

text \<open>
  Claim C5, amended. For a non-empty collection the price range is initialized to the
  minimum and the maximum total price of the full collection, and the area range to the
  fixed lower bound 600 and the maximum total area of the full collection. The bounds are
  computed from the collection alone: they are the same whatever the criteria and the
  filtered subset are at that moment, and clearing the filters sets the same bounds.
\<close>

theorem ranges_from_full_collection:
  assumes "properties \<noteq> []"
  shows "priceRange (initRanges properties prev)
           = (Num (Min (totalPrice ` set properties)), Num (Max (totalPrice ` set properties))) \<and>
         sizeRange (initRanges properties prev)
           = (Num 600, Num (Max (total_sqft ` set properties))) \<and>
         priceRange (initRanges properties prev) = priceRange (initRanges properties prev') \<and>
         sizeRange (initRanges properties prev) = sizeRange (initRanges properties prev') \<and>
         priceRange (clearFilters properties) = priceRange (initRanges properties prev) \<and>
         sizeRange (clearFilters properties) = sizeRange (initRanges properties prev)"
  using assms
  by (simp add: initRanges_def clearFilters_def minPrice_eq maxPrice_eq maxSize_eq minSize_def)

text \<open>The theorem at the two sample listings.\<close>

theorem ranges_from_full_collection_witness:
  "[listing_a, listing_b] \<noteq> [] \<and>
   priceRange (initRanges [listing_a, listing_b] initialFilters) = (Num 10000, Num 25000) \<and>
   sizeRange (initRanges [listing_a, listing_b] initialFilters) = (Num 600, Num 5000)"
proof -
  have h: "[listing_a, listing_b] \<noteq> []" by simp
  note t = ranges_from_full_collection [OF h, where prev = initialFilters]
  have r1: "priceRange (initRanges [listing_a, listing_b] initialFilters) = (Num 10000, Num 25000)"
    using t [THEN conjunct1] by (simp add: listing_simps)
  have r2: "sizeRange (initRanges [listing_a, listing_b] initialFilters) = (Num 600, Num 5000)"
    using t [THEN conjunct2, THEN conjunct1] by (simp add: listing_simps)
  show ?thesis
    by (rule conjI [OF h conjI [OF r1 r2]])
qed

section \<open>First render on a malformed collection\<close>



section \<open>Filter engine: the narrowing stages\<close>

lemma includes_str_sublist: "includes_str s t \<longleftrightarrow> sublist t s"
  by (induction s) (simp_all add: sublist_Cons_right)

lemma set_insort_cmp: "set (insort_cmp cmp x xs) = insert x (set xs)"
  by (induction xs) auto

lemma set_Array_sort: "set (Array_sort cmp xs) = set xs"
  unfolding Array_sort_def by (induction xs) (simp_all add: set_insort_cmp)

lemma if_filter: "(if c then filter P xs else xs) = filter (\<lambda>x. c \<longrightarrow> P x) xs"
  by simp

lemma matchesSearch_iff:
  "matchesSearch s p \<longleftrightarrow>
     sublist s (toLowerCase (title p)) \<or>
     sublist s (toLowerCase (description p)) \<or>
     sublist s (toLowerCase (city (address p))) \<or>
     sublist s (toLowerCase (state (address p))) \<or>
     (\<exists>amenity\<in>set (amenities p). sublist s (toLowerCase amenity))"
  by (simp add: matchesSearch_def includes_str_sublist list_ex_iff)

lemma hasAmenities_iff: "hasAmenities f p \<longleftrightarrow> set (selectedAmenities f) \<subseteq> set (amenities p)"
  by (auto simp: hasAmenities_def list_all_iff)

lemma set_narrow:
  "p \<in> set (narrow ps t f) \<longleftrightarrow>
     p \<in> set ps \<and>
     (t \<noteq> [] \<longrightarrow> matchesSearch (toLowerCase t) p) \<and>
     (selectedTypes f \<noteq> [] \<longrightarrow> type p \<in> set (selectedTypes f)) \<and>
     inPriceRange f p \<and>
     inSizeRange f p \<and>
     (selectedLocations f \<noteq> [] \<longrightarrow> location p \<in> set (selectedLocations f)) \<and>
     (selectedAmenities f \<noteq> [] \<longrightarrow> hasAmenities f p)"
  unfolding narrow_def Let_def if_filter
  by simp


lemma toLowerCase_office: "toLowerCase ''office'' = ''office''"
  by code_simp

lemma toLowerCase_Office_Tower: "toLowerCase ''Office Tower'' = ''office tower''"
  by code_simp

lemma sublist_office_lower: "sublist ''office'' ''office tower''"
  by code_simp

lemma sublist_office_raw: "\<not> sublist ''office'' ''Office Tower''"
  by code_simp

lemma sublist_office_empty: "\<not> sublist ''office'' []"
  by simp

lemmas toLowerCase_examples = toLowerCase_office toLowerCase_Office_Tower

lemmas sublist_examples = sublist_office_lower sublist_office_raw sublist_office_empty

lemma listing_tower_simps:
  "title listing_tower = ''Office Tower''" "description listing_tower = []"
  "city (address listing_tower) = []" "state (address listing_tower) = []"
  "amenities listing_tower = []" "type listing_tower = ''office''"
  "price_per_sqft listing_tower = 10" "total_sqft listing_tower = 1000"
  by (simp_all add: listing_tower_def listing_a_def exampleListing_def)

lemma wideFilters_simps:
  "selectedTypes wideFilters = []" "selectedLocations wideFilters = []"
  "selectedAmenities wideFilters = []" "priceRange wideFilters = (Num 0, Num 100000)"
  "sizeRange wideFilters = (Num 0, Num 10000)" "sortBy wideFilters = ''date_listed''"
  by (simp_all add: wideFilters_def initialFilters_def)

text \<open>
  Claim C1, as stated, fails in its first predicate: the listing titled "Office Tower" is
  retained for the search term "office", whose lower-cased form occurs in none of the
  listing's fields as they are; the component lower-cases the fields as well.
\<close>

theorem search_raw_fields_counterexample:
  "listing_tower \<in> set (filterEffect (\<lambda>d. 0) (\<lambda>s t. 0) [listing_tower] ''office'' wideFilters) \<and>
   \<not> claimedSearchMatch ''office'' listing_tower"
  by (simp add: filterEffect_def set_Array_sort set_narrow matchesSearch_iff inPriceRange_def
      inSizeRange_def claimedSearchMatch_def listing_tower_simps wideFilters_simps
      toLowerCase_examples sublist_examples)

text \<open>
  Claim C1, amended. A listing is in the result of the filter effect exactly when it is in
  the collection and passes the six predicates: (1) for a non-empty search term, the
  lower-cased term occurs in the lower-cased title, description, city or state, or in
  the lower-cased form of at least one amenity; (2) for a non-empty set of selected
  types, its type is one of them; (3) its total price is within the price range, bounds
  included; (4) its total area is within the area range, bounds included; (5) for a
  non-empty set of locations, its "city, state" string is one of them; (6) for a
  non-empty set of required amenities, it has every one of them, so a listing without
  amenities fails.
\<close>

theorem filterEffect_membership:
  "(p \<in> set (filterEffect getTime localeCompare ps t f) \<longleftrightarrow>
      p \<in> set ps \<and>
      (t \<noteq> [] \<longrightarrow>
         sublist (toLowerCase t) (toLowerCase (title p)) \<or>
         sublist (toLowerCase t) (toLowerCase (description p)) \<or>
         sublist (toLowerCase t) (toLowerCase (city (address p))) \<or>
         sublist (toLowerCase t) (toLowerCase (state (address p))) \<or>
         (\<exists>amenity\<in>set (amenities p). sublist (toLowerCase t) (toLowerCase amenity))) \<and>
      (selectedTypes f \<noteq> [] \<longrightarrow> type p \<in> set (selectedTypes f)) \<and>
      fst (priceRange f) \<le> Num (price_per_sqft p * total_sqft p) \<and>
      Num (price_per_sqft p * total_sqft p) \<le> snd (priceRange f) \<and>
      fst (sizeRange f) \<le> Num (total_sqft p) \<and>
      Num (total_sqft p) \<le> snd (sizeRange f) \<and>
      (selectedLocations f \<noteq> [] \<longrightarrow>
         city (address p) @ '', '' @ state (address p) \<in> set (selectedLocations f)) \<and>
      (selectedAmenities f \<noteq> [] \<longrightarrow> set (selectedAmenities f) \<subseteq> set (amenities p))) \<and>
   (amenities p = [] \<and> selectedAmenities f \<noteq> [] \<longrightarrow>
      p \<notin> set (filterEffect getTime localeCompare ps t f))"
proof -
  have m: "p \<in> set (filterEffect getTime localeCompare ps t f) \<longleftrightarrow> p \<in> set (narrow ps t f)"
    by (simp add: filterEffect_def set_Array_sort)
  show ?thesis
    unfolding m set_narrow matchesSearch_iff hasAmenities_iff inPriceRange_def inSizeRange_def
      location_def Let_def
    by auto
qed

lemma toLowerCase_plaza:
  "toLowerCase ''plaza'' = ''plaza''"
  "toLowerCase ''Office Plaza'' = ''office plaza''"
  by (code_simp, code_simp)

lemma sublist_plaza: "sublist ''plaza'' ''office plaza''"
  by code_simp

lemma listing_plaza_simps:
  "title listing_plaza = ''Office Plaza''" "type listing_plaza = ''office''"
  "city (address listing_plaza) = ''Austin''" "state (address listing_plaza) = ''TX''"
  "amenities listing_plaza = [''Parking'', ''Security'']"
  "price_per_sqft listing_plaza = 30" "total_sqft listing_plaza = 2000"
  by (simp_all add: listing_plaza_def)

lemma strictFilters_simps:
  "selectedTypes strictFilters = [''office'']" "selectedLocations strictFilters = [''Austin, TX'']"
  "selectedAmenities strictFilters = [''Parking'']" "priceRange strictFilters = (Num 0, Num 100000)"
  "sizeRange strictFilters = (Num 0, Num 10000)"
  by (simp_all add: strictFilters_def wideFilters_def initialFilters_def)

lemma amenities_listing_a: "amenities listing_a = []"
  by (simp add: listing_a_def exampleListing_def)

text \<open>
  The theorem at a search for "plaza" with a type, a location and an amenity selected: the
  listing that passes all six predicates is retained, the one without amenities is not.
\<close>

theorem filterEffect_membership_witness:
  "''plaza'' \<noteq> [] \<and> selectedTypes strictFilters \<noteq> [] \<and> selectedLocations strictFilters \<noteq> [] \<and>
   selectedAmenities strictFilters \<noteq> [] \<and> amenities listing_a = [] \<and>
   listing_plaza
     \<in> set (filterEffect (\<lambda>d. 0) (\<lambda>s t. 0) [listing_plaza, listing_a] ''plaza'' strictFilters) \<and>
   listing_a
     \<notin> set (filterEffect (\<lambda>d. 0) (\<lambda>s t. 0) [listing_plaza, listing_a] ''plaza'' strictFilters)"
proof -
  note t = filterEffect_membership [where ps = "[listing_plaza, listing_a]"
      and t = "''plaza''" and f = strictFilters
      and getTime = "\<lambda>d. 0" and localeCompare = "\<lambda>s t. 0"]
  have h: "''plaza'' \<noteq> [] \<and> selectedTypes strictFilters \<noteq> [] \<and>
      selectedLocations strictFilters \<noteq> [] \<and> selectedAmenities strictFilters \<noteq> [] \<and>
      amenities listing_a = []"
    by (simp add: strictFilters_simps amenities_listing_a)
  have r1: "listing_plaza
     \<in> set (filterEffect (\<lambda>d. 0) (\<lambda>s t. 0) [listing_plaza, listing_a] ''plaza'' strictFilters)"
    unfolding t [where p = listing_plaza, THEN conjunct1]
    by (simp add: listing_plaza_simps strictFilters_simps toLowerCase_plaza sublist_plaza)
  have r2: "listing_a
     \<notin> set (filterEffect (\<lambda>d. 0) (\<lambda>s t. 0) [listing_plaza, listing_a] ''plaza'' strictFilters)"
    using t [where p = listing_a, THEN conjunct2] h by blast
  from h r1 r2 show ?thesis by blast
qed


section \<open>Filter engine: the sort stage\<close>

lemma filter_insort_cmp_in:
  assumes "P x" and "\<forall>y. P y \<longrightarrow> cmp x y \<le> 0"
  shows "filter P (insort_cmp cmp x xs) = x # filter P xs"
  using assms by (induction xs) auto

lemma filter_insort_cmp_out:
  assumes "\<not> P x"
  shows "filter P (insort_cmp cmp x xs) = filter P xs"
  using assms by (induction xs) auto

lemma Array_sort_stable:
  assumes tie: "\<forall>x y. P x \<and> P y \<longrightarrow> cmp x y \<le> 0"
  shows "filter P (Array_sort cmp xs) = filter P xs"
  unfolding Array_sort_def
proof (induction xs)
  case Nil
  show ?case by simp
next
  case (Cons x xs)
  show ?case
  proof (cases "P x")
    case True
    with tie have "\<forall>y. P y \<longrightarrow> cmp x y \<le> 0" by blast
    with True Cons show ?thesis by (simp add: filter_insort_cmp_in)
  next
    case False
    with Cons show ?thesis by (simp add: filter_insort_cmp_out)
  qed
qed

lemma sameSortKey_join:
  "sameSortKey gT k x a \<Longrightarrow> sameSortKey gT k y a \<Longrightarrow> sameSortKey gT k x y"
  by (simp add: sameSortKey_def split: if_splits)

lemma compareFn_tie:
  assumes "\<forall>s. lc s s = 0" and "sameSortKey gT k x y"
  shows "compareFn gT lc k x y = 0"
  using assms by (auto simp: compareFn_def sameSortKey_def totalPrice_def split: if_splits)

text \<open>
  Claim C8. The filter effect sorts after the narrowing stages, and the sort is stable for
  the selected key: for every listing \<open>a\<close>, the listings whose key value equals that of
  \<open>a\<close> (timestamp for the two date keys, total price for the two price keys, total area
  for the two size keys, title for the title key) come in the output in the same order as
  in the narrowed sequence. The output is a function of the input, the same at every
  run. The comparison of a title with itself is 0, as for every collation.
\<close>

theorem sort_last_and_stable:
  assumes "\<forall>s. localeCompare s s = 0"
  shows "filterEffect getTime localeCompare ps t f
           = Array_sort (compareFn getTime localeCompare (sortBy f)) (narrow ps t f) \<and>
         filter (\<lambda>q. sameSortKey getTime (sortBy f) q a)
             (filterEffect getTime localeCompare ps t f)
           = filter (\<lambda>q. sameSortKey getTime (sortBy f) q a) (narrow ps t f)"
proof -
  have "\<forall>x y. sameSortKey getTime (sortBy f) x a \<and> sameSortKey getTime (sortBy f) y a
      \<longrightarrow> compareFn getTime localeCompare (sortBy f) x y \<le> 0"
  proof (intro allI impI)
    fix x y
    assume "sameSortKey getTime (sortBy f) x a \<and> sameSortKey getTime (sortBy f) y a"
    then have "sameSortKey getTime (sortBy f) x y"
      by (blast intro: sameSortKey_join)
    with assms have "compareFn getTime localeCompare (sortBy f) x y = 0"
      by (rule compareFn_tie)
    then show "compareFn getTime localeCompare (sortBy f) x y \<le> 0" by simp
  qed
  then show ?thesis
    unfolding filterEffect_def by (simp add: Array_sort_stable)
qed


text \<open>The theorem at three listings sorted by rising price, two of them at the same price.\<close>

theorem sort_last_and_stable_witness:
  "filter (\<lambda>q. sameSortKey (\<lambda>d. 0) ''price_low'' q listing_a)
     (filterEffect (\<lambda>d. 0) (\<lambda>s t. 0) [listing_b, listing_a, listing_c] []
        (wideFilters\<lparr> sortBy := ''price_low'' \<rparr>))
   = [listing_a, listing_c]"
proof -
  have h: "\<forall>s. (\<lambda>s t. 0::rat) s s = 0" by simp
  note t = sort_last_and_stable [where localeCompare = "\<lambda>s t. 0", OF h,
      where getTime = "\<lambda>d. 0" and ps = "[listing_b, listing_a, listing_c]" and t = "[]"
      and f = "wideFilters\<lparr> sortBy := ''price_low'' \<rparr>" and a = listing_a, THEN conjunct2]
  have k: "sortBy (wideFilters\<lparr> sortBy := ''price_low'' \<rparr>) = ''price_low''" by simp
  have n: "narrow [listing_b, listing_a, listing_c] [] (wideFilters\<lparr> sortBy := ''price_low'' \<rparr>)
      = [listing_b, listing_a, listing_c]"
    by (simp add: narrow_def inPriceRange_def inSizeRange_def wideFilters_simps
        listing_a_def listing_b_def listing_c_def exampleListing_def)
  have e: "filter (\<lambda>q. sameSortKey (\<lambda>d. 0) ''price_low'' q listing_a)
      [listing_b, listing_a, listing_c] = [listing_a, listing_c]"
    by (simp add: sameSortKey_def totalPrice_def listing_a_def listing_b_def listing_c_def
        exampleListing_def)
  from t show ?thesis unfolding k n e .
qed

text \<open>
  The sort stage orders: for a comparator that is total and transitive the result of
  \<open>Array_sort\<close> is ordered by it, and the comparator of the filter effect is total and
  transitive for each sort key when \<open>localeCompare\<close> is.
\<close>

lemma sorted_wrt_insort_cmp:
  assumes total: "\<And>x y. cmp x y \<le> 0 \<or> cmp y x \<le> 0"
    and trans: "\<And>x y z. cmp x y \<le> 0 \<Longrightarrow> cmp y z \<le> 0 \<Longrightarrow> cmp x z \<le> 0"
    and sorted: "sorted_wrt (\<lambda>a b. cmp a b \<le> 0) xs"
  shows "sorted_wrt (\<lambda>a b. cmp a b \<le> 0) (insort_cmp cmp x xs)"
  using sorted
proof (induction xs)
  case Nil
  show ?case by simp
next
  case (Cons y ys)
  show ?case
  proof (cases "cmp x y \<le> 0")
    case True
    then have "\<forall>z\<in>set ys. cmp x z \<le> 0"
      using Cons.prems trans by auto
    with True Cons.prems show ?thesis by simp
  next
    case False
    then have "cmp y x \<le> 0" using total by blast
    with False Cons show ?thesis by (simp add: set_insort_cmp)
  qed
qed

lemma sorted_wrt_Array_sort:
  assumes total: "\<And>x y. cmp x y \<le> 0 \<or> cmp y x \<le> 0"
    and trans: "\<And>x y z. cmp x y \<le> 0 \<Longrightarrow> cmp y z \<le> 0 \<Longrightarrow> cmp x z \<le> 0"
  shows "sorted_wrt (\<lambda>a b. cmp a b \<le> 0) (Array_sort cmp xs)"
  unfolding Array_sort_def
proof (induction xs)
  case Nil
  show ?case by simp
next
  case (Cons x xs)
  then show ?case using sorted_wrt_insort_cmp [OF total trans] by simp
qed

lemma compareFn_key:
  assumes "Q (\<lambda>a b. gT (date_listed b) - gT (date_listed a))"
    and "Q (\<lambda>a b. gT (date_listed a) - gT (date_listed b))"
    and "Q (\<lambda>a b. price_per_sqft a * total_sqft a - price_per_sqft b * total_sqft b)"
    and "Q (\<lambda>a b. price_per_sqft b * total_sqft b - price_per_sqft a * total_sqft a)"
    and "Q (\<lambda>a b. total_sqft b - total_sqft a)"
    and "Q (\<lambda>a b. total_sqft a - total_sqft b)"
    and "Q (\<lambda>a b. lc (title a) (title b))"
    and "Q (\<lambda>a b. 0)"
  shows "Q (compareFn gT lc k)"
proof -
  have "compareFn gT lc k =
     (if k = ''date_listed'' then (\<lambda>a b. gT (date_listed b) - gT (date_listed a))
      else if k = ''date_listed_old'' then (\<lambda>a b. gT (date_listed a) - gT (date_listed b))
      else if k = ''price_low''
        then (\<lambda>a b. price_per_sqft a * total_sqft a - price_per_sqft b * total_sqft b)
      else if k = ''price_high''
        then (\<lambda>a b. price_per_sqft b * total_sqft b - price_per_sqft a * total_sqft a)
      else if k = ''size_large'' then (\<lambda>a b. total_sqft b - total_sqft a)
      else if k = ''size_small'' then (\<lambda>a b. total_sqft a - total_sqft b)
      else if k = ''title'' then (\<lambda>a b. lc (title a) (title b))
      else (\<lambda>a b. 0))"
    by (intro ext) (simp add: compareFn_def)
  then show ?thesis
    using assms by simp
qed

lemma compareFn_total:
  assumes "\<And>s u. lc s u \<le> 0 \<or> lc u s \<le> 0"
  shows "compareFn gT lc k x y \<le> 0 \<or> compareFn gT lc k y x \<le> 0"
proof -
  have "\<forall>x y. compareFn gT lc k x y \<le> 0 \<or> compareFn gT lc k y x \<le> 0"
  proof (rule compareFn_key [where Q = "\<lambda>cmp. \<forall>x y. cmp x y \<le> 0 \<or> cmp y x \<le> 0"])
    show "\<forall>x y. lc (title x) (title y) \<le> 0 \<or> lc (title y) (title x) \<le> 0"
      using assms by blast
  qed (simp_all, linarith+)
  then show ?thesis by blast
qed

lemma compareFn_trans:
  assumes "\<And>s u v. lc s u \<le> 0 \<Longrightarrow> lc u v \<le> 0 \<Longrightarrow> lc s v \<le> 0"
    and "compareFn gT lc k x y \<le> 0" and "compareFn gT lc k y z \<le> 0"
  shows "compareFn gT lc k x z \<le> 0"
proof -
  have "\<forall>x y z. compareFn gT lc k x y \<le> 0 \<longrightarrow> compareFn gT lc k y z \<le> 0
      \<longrightarrow> compareFn gT lc k x z \<le> 0"
  proof (rule compareFn_key
      [where Q = "\<lambda>cmp. \<forall>x y z. cmp x y \<le> 0 \<longrightarrow> cmp y z \<le> 0 \<longrightarrow> cmp x z \<le> 0"])
    show "\<forall>x y z. lc (title x) (title y) \<le> 0 \<longrightarrow> lc (title y) (title z) \<le> 0
        \<longrightarrow> lc (title x) (title z) \<le> 0"
      using assms(1) by blast
  qed simp_all
  then show ?thesis using assms(2,3) by blast
qed

lemma filterEffect_sorted:
  assumes total: "\<And>s u. lc s u \<le> 0 \<or> lc u s \<le> 0"
    and trans: "\<And>s u v. lc s u \<le> 0 \<Longrightarrow> lc u v \<le> 0 \<Longrightarrow> lc s v \<le> 0"
  shows "sorted_wrt (\<lambda>a b. compareFn gT lc (sortBy f) a b \<le> 0) (filterEffect gT lc ps t f)"
  unfolding filterEffect_def
proof (rule sorted_wrt_Array_sort)
  show "compareFn gT lc (sortBy f) x y \<le> 0 \<or> compareFn gT lc (sortBy f) y x \<le> 0" for x y
    by (rule compareFn_total [OF total])
  show "compareFn gT lc (sortBy f) x y \<le> 0 \<Longrightarrow> compareFn gT lc (sortBy f) y z \<le> 0
      \<Longrightarrow> compareFn gT lc (sortBy f) x z \<le> 0" for x y z
    by (rule compareFn_trans [OF trans])
qed

end
